theory Spec2Isabelle
  imports Main "HOL-Library.Word"
begin

section \<open>The I/O capacity throttle of WiredTiger\<close>

text \<open>
  A shallow embedding of \<^verbatim>\<open>__capacity_config\<close>, \<^verbatim>\<open>__wt_capacity_signal\<close>,
  \<^verbatim>\<open>__capacity_reserve\<close> and \<^verbatim>\<open>__wt_capacity_throttle\<close>. All capacities, clocks and
  byte counts are \<^verbatim>\<open>uint64_t\<close> in the source and 64-bit words here, so that every
  \<open>+\<close>, \<open>-\<close> and \<open>*\<close> wraps modulo \<open>2 ^ 64\<close> as in C, and \<open>div\<close> is the unsigned
  division. The connection is passed explicitly and returned updated. The verbose
  messages, the server thread and its start and stop are left out.
\<close>

type_synonym u64 = "64 word"

subsection \<open>Constants\<close>

text \<open>
  Modelled from the spec: the engine's unit constants are declared outside this file;
  the spec gives one second as \<open>1_000_000_000\<close> nanoseconds, a microsecond as 1000
  nanoseconds and the byte limit as 16 GiB.
\<close>

definition WT_THOUSAND :: u64 where "WT_THOUSAND = 1000"
definition WT_BILLION :: u64 where "WT_BILLION = 1000000000"
definition WT_GIGABYTE :: u64 where "WT_GIGABYTE = 1073741824"

definition WT_CAPACITY_PCT :: u64 where "WT_CAPACITY_PCT = 10"
definition WT_CAPACITY_SLEEP_CUTOFF_US :: u64 where "WT_CAPACITY_SLEEP_CUTOFF_US = 100"

definition WT_CAP_CKPT :: u64 where "WT_CAP_CKPT = 10"
definition WT_CAP_EVICT :: u64 where "WT_CAP_EVICT = 60"
definition WT_CAP_LOG :: u64 where "WT_CAP_LOG = 20"
definition WT_CAP_READ :: u64 where "WT_CAP_READ = 60"

text \<open>\<^verbatim>\<open>#define WT_CAPACITY(total, pct) ((total) * (pct) / 100)\<close>, on \<^verbatim>\<open>uint64_t\<close>.\<close>

definition WT_CAPACITY :: "u64 \<Rightarrow> u64 \<Rightarrow> u64" where
  "WT_CAPACITY tot pct = tot * pct div 100"

subsection \<open>The connection\<close>

datatype WT_THROTTLE_TYPE =
  WT_THROTTLE_CKPT | WT_THROTTLE_EVICT | WT_THROTTLE_LOG | WT_THROTTLE_READ

text \<open>
  Modelled from the spec: the statistics infrastructure is outside this file; the spec
  assumes monotonic counters with atomic increment and set. A counter is a natural
  number, the statistics are a table from the counter's name to its value. The names
  are those of the source with \<open>stat_\<close> in front, since two of them are also fields of
  the connection.
\<close>

datatype stat =
  stat_capacity_threshold
| stat_capacity_signal_calls
| stat_capacity_signals
| stat_capacity_bytes_written
| stat_capacity_bytes_read
| stat_capacity_ckpt_calls
| stat_capacity_evict_calls
| stat_capacity_log_calls
| stat_capacity_read_calls
| stat_capacity_total_throttles
| stat_capacity_total_time
| stat_capacity_ckpt_throttles
| stat_capacity_ckpt_time
| stat_capacity_evict_throttles
| stat_capacity_evict_time
| stat_capacity_log_throttles
| stat_capacity_log_time
| stat_capacity_read_throttles
| stat_capacity_read_time

text \<open>
  The fields of \<^verbatim>\<open>WT_CONNECTION_IMPL\<close> that the four functions read or write. The
  last two fields record the calls of the two primitives with an effect outside the
  connection: \<open>cond_signals\<close> counts the calls of \<^verbatim>\<open>__wt_cond_signal\<close> on
  \<^verbatim>\<open>capacity_cond\<close>, \<open>sleeps\<close> lists the arguments of the calls of \<^verbatim>\<open>__wt_sleep\<close>
  (seconds, microseconds), oldest first.
\<close>

record conn =
  capacity_total :: u64
  capacity_ckpt :: u64
  capacity_evict :: u64
  capacity_log :: u64
  capacity_read :: u64
  capacity_threshold :: u64
  capacity_written :: u64
  capacity_signalled :: bool
  reservation_ckpt :: u64
  reservation_evict :: u64
  reservation_log :: u64
  reservation_read :: u64
  reservation_total :: u64
  WT_CONN_RECOVERING :: bool
  stats :: "stat \<Rightarrow> nat"
  cond_signals :: nat
  sleeps :: "(u64 \<times> u64) list"

definition WT_STAT_CONN_INCRV :: "stat \<Rightarrow> nat \<Rightarrow> conn \<Rightarrow> conn" where
  "WT_STAT_CONN_INCRV fld v c = c\<lparr>stats := (stats c)(fld := stats c fld + v)\<rparr>"

definition WT_STAT_CONN_INCR :: "stat \<Rightarrow> conn \<Rightarrow> conn" where
  "WT_STAT_CONN_INCR fld c = WT_STAT_CONN_INCRV fld 1 c"

definition WT_STAT_CONN_SET :: "stat \<Rightarrow> nat \<Rightarrow> conn \<Rightarrow> conn" where
  "WT_STAT_CONN_SET fld v c = c\<lparr>stats := (stats c)(fld := v)\<rparr>"

text \<open>
  A connection as it is created, uncapped by the specification: everything zero, no
  call recorded.
\<close>

definition conn_init :: conn where
  "conn_init = \<lparr>capacity_total = 0, capacity_ckpt = 0, capacity_evict = 0,
     capacity_log = 0, capacity_read = 0, capacity_threshold = 0, capacity_written = 0,
     capacity_signalled = False, reservation_ckpt = 0, reservation_evict = 0,
     reservation_log = 0, reservation_read = 0, reservation_total = 0,
     WT_CONN_RECOVERING = False, stats = (\<lambda>_. 0), cond_signals = 0, sleeps = []\<rparr>"

subsection \<open>\<^verbatim>\<open>__capacity_config\<close>\<close>

datatype error = EINVAL | WT_NOTFOUND

text \<open>
  Modelled from the spec: the configuration reader is outside this file; the spec has a
  key-value reader exposing \<open>io_capacity.total : int64\<close>. A configuration maps a key to
  a 64-bit value, and a missing key is the reader's error. An \<^verbatim>\<open>int64_t\<close> is its 64 bits,
  read as a two's complement number by \<open>sint\<close>.
\<close>

type_synonym int64 = "64 word"

type_synonym config = "string \<rightharpoonup> int64"

definition wt_config_gets :: "config \<Rightarrow> string \<Rightarrow> error + int64" where
  "wt_config_gets cfg key = (case cfg key of None \<Rightarrow> Inl WT_NOTFOUND | Some v \<Rightarrow> Inr v)"

text \<open>
  \<^verbatim>\<open>WT_CAPACITY_CHK(v, str)\<close>: \<open>True\<close> when the macro returns \<^verbatim>\<open>EINVAL\<close>. The value is
  an \<^verbatim>\<open>int64_t\<close>, compared as a signed number. \<^verbatim>\<open>WT_THROTTLE_MIN\<close> is declared outside
  this file and is a parameter of the model.
\<close>

definition WT_CAPACITY_CHK :: "int \<Rightarrow> int64 \<Rightarrow> bool" where
  "WT_CAPACITY_CHK throttle_min v \<longleftrightarrow> v \<noteq> 0 \<and> sint v < throttle_min"

text \<open>
  The function returns its status and the connection as it leaves it. The cast
  \<^verbatim>\<open>(uint64_t)cval.val\<close> keeps the 64 bits, so it is the identity on the word.
\<close>

definition capacity_config :: "int \<Rightarrow> conn \<Rightarrow> config \<Rightarrow> (error + unit) \<times> conn" where
  "capacity_config throttle_min c cfg =
     (case wt_config_gets cfg ''io_capacity.total'' of
        Inl e \<Rightarrow> (Inl e, c)
      | Inr cval \<Rightarrow>
          if WT_CAPACITY_CHK throttle_min cval then (Inl EINVAL, c)
          else
            let tot = (cval :: u64);
                c1 = c\<lparr>capacity_total := tot\<rparr>;
                c2 = (if tot \<noteq> 0
                      then c1\<lparr>capacity_ckpt := WT_CAPACITY tot WT_CAP_CKPT,
                              capacity_evict := WT_CAPACITY tot WT_CAP_EVICT,
                              capacity_log := WT_CAPACITY tot WT_CAP_LOG,
                              capacity_read := WT_CAPACITY tot WT_CAP_READ\<rparr>
                      else c1);
                c3 = c2\<lparr>capacity_threshold :=
                         (capacity_ckpt c2 + capacity_evict c2 + capacity_log c2) div 100
                           * WT_CAPACITY_PCT\<rparr>
            in (Inr (), WT_STAT_CONN_SET stat_capacity_threshold
                          (unat (capacity_threshold c3)) c3))"

subsection \<open>\<^verbatim>\<open>__wt_capacity_signal\<close>\<close>

definition wt_cond_signal :: "conn \<Rightarrow> conn" where
  "wt_cond_signal c = c\<lparr>cond_signals := cond_signals c + 1\<rparr>"

definition capacity_signal :: "conn \<Rightarrow> conn" where
  "capacity_signal c =
     (let c1 = WT_STAT_CONN_INCR stat_capacity_signal_calls c
      in if capacity_written c1 \<ge> capacity_threshold c1 \<and> \<not> capacity_signalled c1
         then WT_STAT_CONN_INCR stat_capacity_signals
                ((wt_cond_signal c1)\<lparr>capacity_signalled := True\<rparr>)
         else c1)"

subsection \<open>Reservation clocks and atomic operations\<close>

text \<open>
  The pointers \<^verbatim>\<open>reservation\<close> and \<^verbatim>\<open>steal\<close> of the throttle point to one of the five
  clocks of the connection. A pointer is the name of the clock; \<^verbatim>\<open>NULL\<close> is \<open>None\<close>.
\<close>

datatype clock = Clock_ckpt | Clock_evict | Clock_log | Clock_read | Clock_total

fun load :: "conn \<Rightarrow> clock \<Rightarrow> u64" where
  "load c Clock_ckpt = reservation_ckpt c"
| "load c Clock_evict = reservation_evict c"
| "load c Clock_log = reservation_log c"
| "load c Clock_read = reservation_read c"
| "load c Clock_total = reservation_total c"

fun store :: "clock \<Rightarrow> u64 \<Rightarrow> conn \<Rightarrow> conn" where
  "store Clock_ckpt v c = c\<lparr>reservation_ckpt := v\<rparr>"
| "store Clock_evict v c = c\<lparr>reservation_evict := v\<rparr>"
| "store Clock_log v c = c\<lparr>reservation_log := v\<rparr>"
| "store Clock_read v c = c\<lparr>reservation_read := v\<rparr>"
| "store Clock_total v c = c\<lparr>reservation_total := v\<rparr>"


text \<open>
  Modelled from the spec: the atomic primitives are declared outside this file. By the
  spec, the atomic add obtains the new value of the clock, the atomic subtract returns
  the value after the subtraction, the store is a plain store, and the compare-and-swap
  installs the new value exactly when the clock still holds the expected one and
  reports whether it did.
\<close>

definition wt_atomic_add64 :: "clock \<Rightarrow> u64 \<Rightarrow> conn \<Rightarrow> conn \<times> u64" where
  "wt_atomic_add64 p v c = (store p (load c p + v) c, load c p + v)"

definition wt_atomic_sub64 :: "clock \<Rightarrow> u64 \<Rightarrow> conn \<Rightarrow> conn \<times> u64" where
  "wt_atomic_sub64 p v c = (store p (load c p - v) c, load c p - v)"

definition wt_atomic_store64 :: "clock \<Rightarrow> u64 \<Rightarrow> conn \<Rightarrow> conn" where
  "wt_atomic_store64 p v c = store p v c"

definition wt_atomic_casv64 :: "clock \<Rightarrow> u64 \<Rightarrow> u64 \<Rightarrow> conn \<Rightarrow> conn \<times> bool" where
  "wt_atomic_casv64 p old new c =
     (if load c p = old then (store p new c, True) else (c, False))"

subsection \<open>Faults\<close>

text \<open>
  What stops the throttle instead of returning: a failed \<^verbatim>\<open>WT_ASSERT\<close>, which aborts
  in a diagnostic build, and a division by zero in \<^verbatim>\<open>WT_RESERVATION_NS\<close>, which is
  undefined in C. \<^verbatim>\<open>WT_ASSERT\<close> is declared outside this file and expands to nothing
  unless the build is diagnostic: the build is the parameter \<open>diagnostic\<close> of the
  throttle.
\<close>

datatype fault =
  Assert_bytes | Assert_capacity | Assert_steal_capacity | Division_by_zero

text \<open>
  \<^verbatim>\<open>#define WT_RESERVATION_NS(bytes, capacity) (((bytes) * WT_BILLION) / (capacity))\<close>
\<close>

definition WT_RESERVATION_NS :: "u64 \<Rightarrow> u64 \<Rightarrow> fault + u64" where
  "WT_RESERVATION_NS bytes capacity =
     (if capacity = 0 then Inl Division_by_zero else Inr (bytes * WT_BILLION div capacity))"

subsection \<open>\<^verbatim>\<open>__capacity_reserve\<close>\<close>

text \<open>
  The result is the connection and \<^verbatim>\<open>*result\<close>. The parameter \<^verbatim>\<open>is_total\<close> of the
  source only selects the text of the verbose messages, which the model leaves out.
\<close>

definition capacity_reserve ::
  "conn \<Rightarrow> clock \<Rightarrow> u64 \<Rightarrow> u64 \<Rightarrow> u64 \<Rightarrow> fault + conn \<times> u64" where
  "capacity_reserve c reservation bytes capacity now_ns =
     (if capacity \<noteq> 0 then
        (case WT_RESERVATION_NS bytes capacity of
           Inl f \<Rightarrow> Inl f
         | Inr res_len \<Rightarrow>
             (case wt_atomic_add64 reservation res_len c of
                (c1, res_value) \<Rightarrow>
                  if now_ns > res_value \<and> now_ns - res_value > WT_BILLION
                  then Inr (wt_atomic_store64 reservation
                              (now_ns - WT_BILLION + res_len) c1, res_value)
                  else Inr (c1, res_value)))
      else Inr (c, now_ns))"

subsection \<open>\<^verbatim>\<open>__wt_capacity_throttle\<close>\<close>

definition wt_sleep :: "u64 \<Rightarrow> u64 \<Rightarrow> conn \<Rightarrow> conn" where
  "wt_sleep seconds micro_seconds c = c\<lparr>sleeps := sleeps c @ [(seconds, micro_seconds)]\<rparr>"

text \<open>
  The \<^verbatim>\<open>switch\<close> on the type: the capacity, the clock and the statistic of the calls of
  the subsystem.
\<close>

fun throttle_capacity :: "conn \<Rightarrow> WT_THROTTLE_TYPE \<Rightarrow> u64" where
  "throttle_capacity c WT_THROTTLE_CKPT = capacity_ckpt c"
| "throttle_capacity c WT_THROTTLE_EVICT = capacity_evict c"
| "throttle_capacity c WT_THROTTLE_LOG = capacity_log c"
| "throttle_capacity c WT_THROTTLE_READ = capacity_read c"

fun throttle_reservation :: "WT_THROTTLE_TYPE \<Rightarrow> clock" where
  "throttle_reservation WT_THROTTLE_CKPT = Clock_ckpt"
| "throttle_reservation WT_THROTTLE_EVICT = Clock_evict"
| "throttle_reservation WT_THROTTLE_LOG = Clock_log"
| "throttle_reservation WT_THROTTLE_READ = Clock_read"

fun throttle_calls_stat :: "WT_THROTTLE_TYPE \<Rightarrow> stat" where
  "throttle_calls_stat WT_THROTTLE_CKPT = stat_capacity_ckpt_calls"
| "throttle_calls_stat WT_THROTTLE_EVICT = stat_capacity_evict_calls"
| "throttle_calls_stat WT_THROTTLE_LOG = stat_capacity_log_calls"
| "throttle_calls_stat WT_THROTTLE_READ = stat_capacity_read_calls"

text \<open>
  Lines 411 to 435, the choice of the subsystem to steal from: the locals \<^verbatim>\<open>steal\<close>,
  \<^verbatim>\<open>steal_capacity\<close> and \<^verbatim>\<open>best_res\<close> after the four tests, in the order of the source.
\<close>

definition steal_scan ::
  "conn \<Rightarrow> WT_THROTTLE_TYPE \<Rightarrow> u64 \<Rightarrow> clock option \<times> u64 \<times> u64" where
  "steal_scan c type now_ns =
     (let s0 = (None, 0, now_ns - WT_BILLION div 2);
          s1 = (case s0 of (steal, steal_capacity, best_res) \<Rightarrow>
                  if type \<noteq> WT_THROTTLE_CKPT \<and> reservation_ckpt c < best_res
                  then (Some Clock_ckpt, capacity_ckpt c, reservation_ckpt c) else s0);
          s2 = (case s1 of (steal, steal_capacity, best_res) \<Rightarrow>
                  if type \<noteq> WT_THROTTLE_EVICT \<and> reservation_evict c < best_res
                  then (Some Clock_evict, capacity_evict c, reservation_evict c) else s1);
          s3 = (case s2 of (steal, steal_capacity, best_res) \<Rightarrow>
                  if type \<noteq> WT_THROTTLE_LOG \<and> reservation_log c < best_res
                  then (Some Clock_log, capacity_log c, reservation_log c) else s2);
          s4 = (case s3 of (steal, steal_capacity, best_res) \<Rightarrow>
                  if type \<noteq> WT_THROTTLE_READ \<and> reservation_read c < best_res
                  then (Some Clock_read, capacity_read c, reservation_read c) else s3)
      in s4)"

text \<open>
  Lines 474 to 506, from the comparison of the two reservations to the sleep. The
  arguments are \<^verbatim>\<open>res_value\<close> and \<^verbatim>\<open>res_total_value\<close> as the code above line 474
  leaves them.
\<close>

definition throttle_wait :: "conn \<Rightarrow> WT_THROTTLE_TYPE \<Rightarrow> u64 \<Rightarrow> u64 \<Rightarrow> u64 \<Rightarrow> conn" where
  "throttle_wait c type now_ns res_value0 res_total_value =
     (let res_value = (if res_value0 < res_total_value then res_total_value else res_value0)
      in if res_value > now_ns then
           let sleep_us = (res_value - now_ns) div WT_THOUSAND;
               c1 = (if res_value = res_total_value then
                       WT_STAT_CONN_INCRV stat_capacity_total_time (unat sleep_us)
                         (WT_STAT_CONN_INCR stat_capacity_total_throttles c)
                     else if type = WT_THROTTLE_CKPT then
                       WT_STAT_CONN_INCRV stat_capacity_ckpt_time (unat sleep_us)
                         (WT_STAT_CONN_INCR stat_capacity_ckpt_throttles c)
                     else if type = WT_THROTTLE_EVICT then
                       WT_STAT_CONN_INCRV stat_capacity_evict_time (unat sleep_us)
                         (WT_STAT_CONN_INCR stat_capacity_evict_throttles c)
                     else if type = WT_THROTTLE_LOG then
                       WT_STAT_CONN_INCRV stat_capacity_log_time (unat sleep_us)
                         (WT_STAT_CONN_INCR stat_capacity_log_throttles c)
                     else if type = WT_THROTTLE_READ then
                       WT_STAT_CONN_INCRV stat_capacity_read_time (unat sleep_us)
                         (WT_STAT_CONN_INCR stat_capacity_read_throttles c)
                     else c)
           in if sleep_us > WT_CAPACITY_SLEEP_CUTOFF_US then wt_sleep 0 sleep_us c1 else c1
         else c)"

text \<open>
  One pass through the code from the label \<^verbatim>\<open>again\<close> (line 397) on. A pass either
  reaches \<^verbatim>\<open>goto again\<close>, with the connection and the local \<^verbatim>\<open>steal\<close> as they are
  then, or runs to the end of the function.

  The other threads are the parameter \<open>env\<close>: what they do to the connection between
  the moment this thread has read the clocks of the other subsystems and its
  compare-and-swap. With \<open>env = id\<close> the call runs alone.
\<close>

datatype pass = Again conn "clock option" | Return conn

definition throttle_pass ::
  "bool \<Rightarrow> (conn \<Rightarrow> conn) \<Rightarrow> u64 \<Rightarrow> u64 \<Rightarrow> WT_THROTTLE_TYPE \<Rightarrow> u64 \<Rightarrow> clock \<Rightarrow> u64 \<Rightarrow>
     conn \<Rightarrow> clock option \<Rightarrow> fault + pass" where
  "throttle_pass diagnostic env now_ns bytes type capacity reservation total_capacity c steal =
     (case capacity_reserve c reservation bytes capacity now_ns of
        Inl f \<Rightarrow> Inl f
      | Inr (c1, res_value) \<Rightarrow>
     (case capacity_reserve c1 Clock_total bytes total_capacity now_ns of
        Inl f \<Rightarrow> Inl f
      | Inr (c2, res_total_value) \<Rightarrow>
          if res_value > now_ns \<and> res_total_value < now_ns \<and> steal = None \<and>
             total_capacity \<noteq> 0
          then
            (case steal_scan c2 type now_ns of
               (None, steal_capacity, best_res) \<Rightarrow>
                 Inr (Return (throttle_wait c2 type now_ns res_value res_total_value))
             | (Some victim, steal_capacity, best_res) \<Rightarrow>
                 let new_res0 = (if best_res < now_ns - WT_BILLION \<and> now_ns > WT_BILLION
                                 then now_ns - WT_BILLION else best_res)
                 in if diagnostic \<and> \<not> steal_capacity \<noteq> 0 then Inl Assert_steal_capacity
                    else
                 (case WT_RESERVATION_NS bytes steal_capacity of
                    Inl f \<Rightarrow> Inl f
                  | Inr steal_len \<Rightarrow>
                 (case wt_atomic_casv64 victim best_res
                         (new_res0 + (WT_BILLION div 16 + steal_len)) (env c2) of
                    (c3, False) \<Rightarrow>
                      (case WT_RESERVATION_NS bytes capacity of
                         Inl f \<Rightarrow> Inl f
                       | Inr res_len \<Rightarrow>
                      (case wt_atomic_sub64 reservation res_len c3 of
                         (c4, _) \<Rightarrow>
                      (case WT_RESERVATION_NS bytes total_capacity of
                         Inl f \<Rightarrow> Inl f
                       | Inr res_total_len \<Rightarrow>
                      (case wt_atomic_sub64 Clock_total res_total_len c4 of
                         (c5, _) \<Rightarrow> Inr (Again c5 (Some victim))))))
                  | (c3, True) \<Rightarrow>
                      (case WT_RESERVATION_NS (steal_capacity div 16) capacity of
                         Inl f \<Rightarrow> Inl f
                       | Inr stolen_len \<Rightarrow>
                           (case wt_atomic_sub64 reservation stolen_len c3 of
                              (c4, res_value') \<Rightarrow>
                                Inr (Return (throttle_wait c4 type now_ns res_value'
                                               res_total_value)))))))
          else Inr (Return (throttle_wait c2 type now_ns res_value res_total_value))))"

text \<open>
  The loop that \<^verbatim>\<open>goto again\<close> makes: passes are repeated until one runs to the end.
\<close>

function throttle_again ::
  "bool \<Rightarrow> (conn \<Rightarrow> conn) \<Rightarrow> u64 \<Rightarrow> u64 \<Rightarrow> WT_THROTTLE_TYPE \<Rightarrow> u64 \<Rightarrow> clock \<Rightarrow> u64 \<Rightarrow>
     conn \<Rightarrow> clock option \<Rightarrow> fault + conn" where
  "throttle_again diagnostic env now_ns bytes type capacity reservation total_capacity c steal =
     (case throttle_pass diagnostic env now_ns bytes type capacity reservation
             total_capacity c steal of
        Inl f \<Rightarrow> Inl f
      | Inr (Return c') \<Rightarrow> Inr c'
      | Inr (Again c' steal') \<Rightarrow>
          throttle_again diagnostic env now_ns bytes type capacity reservation
            total_capacity c' steal')"
  by pat_completeness auto

text \<open>The time of \<^verbatim>\<open>__wt_epoch\<close>, with both fields already cast to \<^verbatim>\<open>uint64_t\<close>.\<close>

record timespec =
  tv_sec :: u64
  tv_nsec :: u64

text \<open>
  The whole function: the connection when it returns, or the fault that stops it. The
  time is what \<^verbatim>\<open>__wt_epoch\<close> gives to this call.
\<close>

definition capacity_throttle ::
  "bool \<Rightarrow> (conn \<Rightarrow> conn) \<Rightarrow> timespec \<Rightarrow> conn \<Rightarrow> u64 \<Rightarrow> WT_THROTTLE_TYPE \<Rightarrow> fault + conn" where
  "capacity_throttle diagnostic env now c bytes type =
     (let capacity = throttle_capacity c type;
          reservation = throttle_reservation type;
          c1 = WT_STAT_CONN_INCR (throttle_calls_stat type) c;
          total_capacity = capacity_total c1
      in if (capacity = 0 \<and> total_capacity = 0) \<or> WT_CONN_RECOVERING c1 then Inr c1
         else
           let c2 = (if type \<noteq> WT_THROTTLE_READ then
                       capacity_signal
                         (WT_STAT_CONN_INCRV stat_capacity_bytes_written (unat bytes)
                            (c1\<lparr>capacity_written := capacity_written c1 + bytes\<rparr>))
                     else WT_STAT_CONN_INCRV stat_capacity_bytes_read (unat bytes) c1)
           in if diagnostic \<and> \<not> bytes < 16 * WT_GIGABYTE then Inl Assert_bytes
              else if diagnostic \<and> \<not> capacity \<noteq> 0 then Inl Assert_capacity
              else
                let now_ns = tv_sec now * WT_BILLION + tv_nsec now
                in throttle_again diagnostic env now_ns bytes type capacity reservation
                     total_capacity c2 None)"

subsection \<open>Calls in sequence\<close>


text \<open>The configuration that holds the one key, as the caller of the configure passes it.\<close>

definition io_capacity_total :: "int64 \<Rightarrow> config" where
  "io_capacity_total v = [''io_capacity.total'' \<mapsto> v]"

subsection \<open>The slot length of the specification\<close>

text \<open>
  The specification's \<open>slot_ns(bytes, cap) = bytes * 1_000_000_000 / cap\<close>, on unbounded
  natural numbers, to compare \<^verbatim>\<open>WT_RESERVATION_NS\<close> with.
\<close>

definition slot_ns :: "nat \<Rightarrow> nat \<Rightarrow> nat" where
  "slot_ns bytes cap = bytes * 1000000000 div cap"

subsection \<open>The counters of a throttled call\<close>



subsection \<open>Bounded passes\<close>

text \<open>
  The loop of \<open>throttle_again\<close> with a bound on the number of passes: \<open>None\<close> when
  the passes allowed are used up before one of them ends the call.
\<close>

fun throttle_passes ::
  "nat \<Rightarrow> bool \<Rightarrow> (conn \<Rightarrow> conn) \<Rightarrow> u64 \<Rightarrow> u64 \<Rightarrow> WT_THROTTLE_TYPE \<Rightarrow> u64 \<Rightarrow> clock \<Rightarrow> u64 \<Rightarrow>
     conn \<Rightarrow> clock option \<Rightarrow> (fault + conn) option" where
  "throttle_passes 0 diagnostic env now_ns bytes type capacity reservation total_capacity
     c steal = None"
| "throttle_passes (Suc n) diagnostic env now_ns bytes type capacity reservation
     total_capacity c steal =
     (case throttle_pass diagnostic env now_ns bytes type capacity reservation
             total_capacity c steal of
        Inl f \<Rightarrow> Some (Inl f)
      | Inr (Return c') \<Rightarrow> Some (Inr c')
      | Inr (Again c' steal') \<Rightarrow>
          throttle_passes n diagnostic env now_ns bytes type capacity reservation
            total_capacity c' steal')"

subsection \<open>Capacities that are all set\<close>

text \<open>
  The state that the assertions of the throttle expect: when there is a total capacity,
  each of the four subsystems has a capacity.
\<close>

definition capacities_set :: "conn \<Rightarrow> bool" where
  "capacities_set c \<longleftrightarrow>
     (capacity_total c \<noteq> 0 \<longrightarrow>
        capacity_ckpt c \<noteq> 0 \<and> capacity_evict c \<noteq> 0 \<and> capacity_log c \<noteq> 0 \<and>
        capacity_read c \<noteq> 0)"

subsection \<open>Example connections and calls\<close>

text \<open>
  A fresh connection configured with a total of 1 MB per second, with the minimum at
  1 MB per second.
\<close>

definition conn_1mb :: conn where
  "conn_1mb = snd (capacity_config 1048576 conn_init (io_capacity_total 1048576))"

text \<open>A time in the year 2023.\<close>

definition time_1700 :: timespec where
  "time_1700 = \<lparr>tv_sec = 1700000000, tv_nsec = 0\<rparr>"

text \<open>
  A fresh connection configured with a total of \<open>2 ^ 62\<close> bytes per second, with the
  minimum at 1 MB per second.
\<close>

definition conn_2p62 :: conn where
  "conn_2p62 = snd (capacity_config 1048576 conn_init (io_capacity_total 4611686018427387904))"

text \<open>
  A fresh connection configured with a total of 1844674407370955168 bytes per second,
  which is \<open>(2 ^ 64 + 64) / 10\<close>, with the minimum at 1 MB per second; and the same
  connection after one call of the throttle for a read of 6 bytes at the time above.
\<close>

definition conn_wrap :: conn where
  "conn_wrap = snd (capacity_config 1048576 conn_init (io_capacity_total 1844674407370955168))"

definition conn_wrap_read :: conn where
  "conn_wrap_read = conn_wrap\<lparr>reservation_read := 1700000001000000000,
     reservation_total := 1699999999000000000,
     stats := (\<lambda>_. 0)(stat_capacity_threshold := 0, stat_capacity_read_calls := 1,
               stat_capacity_bytes_read := 6)\<rparr>"

text \<open>
  A connection with a total of 10 MB per second, where the log clock is 150 ms ahead of
  the time 100 s and the checkpoint clock has never moved.
\<close>

definition conn_steal :: conn where
  "conn_steal = \<lparr>capacity_total = 10000000, capacity_ckpt = 1000000,
     capacity_evict = 6000000, capacity_log = 2000000, capacity_read = 6000000,
     capacity_threshold = 900000, capacity_written = 0, capacity_signalled = False,
     reservation_ckpt = 0, reservation_evict = 200000000000,
     reservation_log = 100150000000, reservation_read = 200000000000,
     reservation_total = 0, WT_CONN_RECOVERING = False, stats = (\<lambda>_. 0),
     cond_signals = 0, sleeps = []\<rparr>"

text \<open>Another thread that moves the checkpoint clock.\<close>

definition env_ckpt :: "conn \<Rightarrow> conn" where
  "env_ckpt c = c\<lparr>reservation_ckpt := reservation_ckpt c + 77\<rparr>"



section \<open>Termination of the retry loop\<close>

lemma throttle_pass_Again:
  assumes "throttle_pass diagnostic env now_ns bytes type capacity reservation
             total_capacity c steal = Inr (Again c' steal')"
  shows "steal = None \<and> steal' \<noteq> None"
  using assms
  by (auto simp: throttle_pass_def Let_def
           split: sum.splits prod.splits if_splits option.splits bool.splits)

termination throttle_again
proof (relation "measure (\<lambda>(diagnostic, env, now_ns, bytes, type, capacity, reservation,
                             total_capacity, c, steal). if steal = None then 1 else 0)")
  show "wf (measure (\<lambda>(diagnostic :: bool, env :: conn \<Rightarrow> conn, now_ns :: u64, bytes :: u64,
                        type :: WT_THROTTLE_TYPE, capacity :: u64, reservation :: clock,
                        total_capacity :: u64, c :: conn, steal :: clock option).
                       if steal = None then 1 else 0))"
    by simp
next
  fix diagnostic env now_ns bytes type capacity reservation total_capacity c steal x2 c' steal'
  assume "throttle_pass diagnostic env now_ns bytes type capacity reservation
            total_capacity c steal = Inr x2"
    and "x2 = Again c' steal'"
  then have "steal = None \<and> steal' \<noteq> None"
    using throttle_pass_Again by blast
  then show "((diagnostic, env, now_ns, bytes, type, capacity, reservation, total_capacity,
               c', steal'),
              (diagnostic, env, now_ns, bytes, type, capacity, reservation, total_capacity,
               c, steal))
             \<in> measure (\<lambda>(diagnostic, env, now_ns, bytes, type, capacity, reservation,
                            total_capacity, c, steal). if steal = None then 1 else 0)"
    by auto
qed

section \<open>Clocks\<close>

lemma store_store [simp]: "store p v (store p w c) = store p v c"
  by (cases p) simp_all

lemma load_store_same [simp]: "load (store p v c) p = v"
  by (cases p) simp_all

lemma load_store_other [simp]: "p \<noteq> q \<Longrightarrow> load (store p v c) q = load c q"
  by (cases p; cases q) simp_all

section \<open>The configuration\<close>

text \<open>
  Claim C8. When the configured total is positive and below \<^verbatim>\<open>WT_THROTTLE_MIN\<close>, the
  configure returns \<^verbatim>\<open>EINVAL\<close> and the connection it leaves is the connection it got:
  the total, the four capacities and the threshold are unchanged. When the total is 0
  or at least \<^verbatim>\<open>WT_THROTTLE_MIN\<close>, the configure succeeds.
\<close>

theorem capacity_config_validation:
  assumes "cfg ''io_capacity.total'' = Some v"
  shows "(0 < sint v \<and> sint v < throttle_min \<longrightarrow>
            capacity_config throttle_min c cfg = (Inl EINVAL, c)) \<and>
         (sint v = 0 \<or> throttle_min \<le> sint v \<longrightarrow>
            fst (capacity_config throttle_min c cfg) = Inr ())"
  using assms
  by (auto simp: capacity_config_def wt_config_gets_def WT_CAPACITY_CHK_def Let_def
        signed_eq_0_iff)

theorem capacity_config_validation_witness:
  "io_capacity_total 5 ''io_capacity.total'' = Some 5 \<and>
   0 < sint (5 :: int64) \<and> sint (5 :: int64) < 1048576 \<and>
   capacity_config 1048576 conn_1mb (io_capacity_total 5) = (Inl EINVAL, conn_1mb) \<and>
   io_capacity_total 2000000 ''io_capacity.total'' = Some 2000000 \<and>
   1048576 \<le> sint (2000000 :: int64) \<and>
   fst (capacity_config 1048576 conn_1mb (io_capacity_total 2000000)) = Inr ()"
proof -
  have k5: "io_capacity_total 5 ''io_capacity.total'' = Some 5"
    and k2: "io_capacity_total 2000000 ''io_capacity.total'' = Some 2000000"
    by (simp_all add: io_capacity_total_def)
  show ?thesis
    using k5 k2
      capacity_config_validation
        [where cfg = "io_capacity_total 5" and v = 5 and throttle_min = 1048576
           and c = conn_1mb]
      capacity_config_validation
        [where cfg = "io_capacity_total 2000000" and v = 2000000
           and throttle_min = 1048576 and c = conn_1mb]
    by simp
qed

lemma div100_times10: "unat (x div 100 * WT_CAPACITY_PCT :: u64) = unat x div 100 * 10"
proof -
  have "unat x < 2 ^ 64" using unsigned_less [of x] by simp
  then have "unat x div 100 * 10 < 2 ^ 64" by simp
  then show ?thesis
    by (simp add: WT_CAPACITY_PCT_def unat_word_ariths unat_div)
qed

lemma capacity_config_threshold_word:
  assumes "capacity_config throttle_min c cfg = (Inr (), c')"
  shows "capacity_threshold c' =
           (capacity_ckpt c' + capacity_evict c' + capacity_log c') div 100 * WT_CAPACITY_PCT"
  using assms
  by (auto simp: capacity_config_def wt_config_gets_def Let_def WT_STAT_CONN_SET_def
        split: option.splits if_splits)

lemma conn_1mb_eq:
  "capacity_config 1048576 conn_init (io_capacity_total 1048576) =
     (Inr (), conn_init\<lparr>capacity_total := 1048576, capacity_ckpt := 104857,
        capacity_evict := 629145, capacity_log := 209715, capacity_read := 629145,
        capacity_threshold := 94370,
        stats := (\<lambda>_. 0)(stat_capacity_threshold := 94370)\<rparr>)"
  by (simp add: capacity_config_def wt_config_gets_def io_capacity_total_def
        WT_CAPACITY_CHK_def WT_CAPACITY_def WT_CAP_CKPT_def WT_CAP_EVICT_def WT_CAP_LOG_def
        WT_CAP_READ_def WT_CAPACITY_PCT_def WT_STAT_CONN_SET_def conn_init_def Let_def)

text \<open>
  Claim C2, as the code has it. After every successful configure the threshold is the
  sum of the checkpoint, eviction and log capacities (a 64-bit sum), divided by 100
  first, rounding down, and then multiplied by 10: the division comes before the
  multiplication.
\<close>

theorem capacity_config_threshold:
  assumes "capacity_config throttle_min c cfg = (Inr (), c')"
  shows "unat (capacity_threshold c') =
           (unat (capacity_ckpt c') + unat (capacity_evict c') + unat (capacity_log c'))
             mod 2 ^ 64 div 100 * 10"
proof -
  have "unat (capacity_ckpt c' + capacity_evict c' + capacity_log c') =
          (unat (capacity_ckpt c') + unat (capacity_evict c') + unat (capacity_log c'))
            mod 2 ^ 64"
    by (simp add: unat_word_ariths mod_simps)
  then show ?thesis
    by (simp add: capacity_config_threshold_word [OF assms] div100_times10)
qed

theorem capacity_config_threshold_witness:
  "capacity_config 1048576 conn_init (io_capacity_total 1048576) = (Inr (), conn_1mb) \<and>
   unat (capacity_threshold conn_1mb) =
     (unat (capacity_ckpt conn_1mb) + unat (capacity_evict conn_1mb) +
      unat (capacity_log conn_1mb)) mod 2 ^ 64 div 100 * 10"
proof -
  have ok: "capacity_config 1048576 conn_init (io_capacity_total 1048576) = (Inr (), conn_1mb)"
    by (simp add: conn_1mb_def conn_1mb_eq)
  show ?thesis
    using ok capacity_config_threshold [OF ok] by simp
qed

text \<open>
  Claim C2, as the specification states it, fails: with a total of 1048576 the
  capacities are 104857, 629145 and 209715, their sum times 10 divided by 100 is 94371,
  and the configure sets the threshold to 94370.
\<close>

theorem capacity_config_threshold_counterexample:
  "fst (capacity_config 1048576 conn_init (io_capacity_total 1048576)) = Inr () \<and>
   unat (capacity_threshold conn_1mb) = 94370 \<and>
   (unat (capacity_ckpt conn_1mb) + unat (capacity_evict conn_1mb) +
    unat (capacity_log conn_1mb)) * 10 div 100 = 94371"
  by (simp add: conn_1mb_def conn_1mb_eq)

section \<open>The signal\<close>

lemma capacity_signal_eq:
  "capacity_signal c =
     (if capacity_threshold c \<le> capacity_written c \<and> \<not> capacity_signalled c
      then c\<lparr>capacity_signalled := True,
             stats := (stats c)
               (stat_capacity_signal_calls := stats c stat_capacity_signal_calls + 1,
                stat_capacity_signals := stats c stat_capacity_signals + 1),
             cond_signals := cond_signals c + 1\<rparr>
      else c\<lparr>stats := (stats c)
               (stat_capacity_signal_calls := stats c stat_capacity_signal_calls + 1)\<rparr>)"
  by (simp add: capacity_signal_def WT_STAT_CONN_INCR_def WT_STAT_CONN_INCRV_def
        wt_cond_signal_def Let_def)

lemma cond_signals_capacity_signal:
  "cond_signals (capacity_signal c) =
     (if capacity_threshold c \<le> capacity_written c \<and> \<not> capacity_signalled c
      then cond_signals c + 1 else cond_signals c)"
  by (simp add: capacity_signal_eq)

lemma capacity_signalled_capacity_signal:
  "capacity_signalled (capacity_signal c) \<longleftrightarrow>
     capacity_threshold c \<le> capacity_written c \<or> capacity_signalled c"
  by (auto simp: capacity_signal_eq)

lemma capacity_signal_repeat:
  "cond_signals ((capacity_signal ^^ k) c) \<le> cond_signals c + 1 \<and>
   (cond_signals ((capacity_signal ^^ k) c) = cond_signals c + 1 \<longrightarrow>
      capacity_signalled ((capacity_signal ^^ k) c))"
proof (induction k)
  case 0
  show ?case by simp
next
  case (Suc k)
  define d where "d = (capacity_signal ^^ k) c"
  have step: "(capacity_signal ^^ Suc k) c = capacity_signal d"
    by (simp add: d_def)
  from Suc have ih: "cond_signals d \<le> cond_signals c + 1"
    "cond_signals d = cond_signals c + 1 \<longrightarrow> capacity_signalled d"
    by (simp_all add: d_def)
  show ?case
    unfolding step using ih
    by (auto simp: cond_signals_capacity_signal capacity_signalled_capacity_signal)
qed

text \<open>
  Claim C7. A signal wakes the condition once and sets \<^verbatim>\<open>capacity_signalled\<close> when
  \<^verbatim>\<open>capacity_written\<close> has reached \<^verbatim>\<open>capacity_threshold\<close> and the flag is clear; in every
  other state it wakes nothing and leaves the flag as it is. So \<open>k\<close> signals in a row,
  with nothing in between that clears the flag, wake the condition at most once.
\<close>

theorem capacity_signal_coalesces:
  "(capacity_threshold c \<le> capacity_written c \<and> \<not> capacity_signalled c \<longrightarrow>
      cond_signals (capacity_signal c) = cond_signals c + 1 \<and>
      capacity_signalled (capacity_signal c)) \<and>
   (\<not> (capacity_threshold c \<le> capacity_written c \<and> \<not> capacity_signalled c) \<longrightarrow>
      cond_signals (capacity_signal c) = cond_signals c \<and>
      capacity_signalled (capacity_signal c) = capacity_signalled c) \<and>
   cond_signals ((capacity_signal ^^ k) c) \<le> cond_signals c + 1"
  using capacity_signal_repeat [of k c]
  by (auto simp: cond_signals_capacity_signal capacity_signalled_capacity_signal)

theorem capacity_signal_coalesces_witness:
  "capacity_threshold (conn_init\<lparr>capacity_written := 4096\<rparr>)
     \<le> capacity_written (conn_init\<lparr>capacity_written := 4096\<rparr>) \<and>
   \<not> capacity_signalled (conn_init\<lparr>capacity_written := 4096\<rparr>) \<and>
   cond_signals (capacity_signal (conn_init\<lparr>capacity_written := 4096\<rparr>)) = 1 \<and>
   capacity_signalled (capacity_signal (conn_init\<lparr>capacity_written := 4096\<rparr>)) \<and>
   cond_signals ((capacity_signal ^^ 3) (conn_init\<lparr>capacity_written := 4096\<rparr>)) \<le> 1 \<and>
   \<not> (capacity_threshold (conn_init\<lparr>capacity_threshold := 10\<rparr>)
        \<le> capacity_written (conn_init\<lparr>capacity_threshold := 10\<rparr>)) \<and>
   cond_signals (capacity_signal (conn_init\<lparr>capacity_threshold := 10\<rparr>)) = 0 \<and>
   \<not> capacity_signalled (capacity_signal (conn_init\<lparr>capacity_threshold := 10\<rparr>))"
  using capacity_signal_coalesces [of "conn_init\<lparr>capacity_written := 4096\<rparr>" 3]
    capacity_signal_coalesces [of "conn_init\<lparr>capacity_threshold := 10\<rparr>" 3]
  by (simp add: conn_init_def)

section \<open>The reservation\<close>

lemma behind_iff:
  "(now_ns > res_value \<and> now_ns - res_value > WT_BILLION) \<longleftrightarrow>
     unat res_value + 1000000000 < unat (now_ns :: u64)"
proof (cases "res_value < now_ns")
  case True
  then have "unat (now_ns - res_value) = unat now_ns - unat res_value"
    by (simp add: unat_sub word_less_def word_le_def)
  with True show ?thesis
    by (auto simp: WT_BILLION_def word_less_nat_alt)
next
  case False
  then show ?thesis
    by (auto simp: word_less_nat_alt)
qed

lemma WT_RESERVATION_NS_exact:
  assumes "bytes < 16 * WT_GIGABYTE"
  shows "unat (bytes * WT_BILLION div capacity) = slot_ns (unat bytes) (unat capacity)"
proof -
  from assms have "unat bytes < 17179869184"
    by (simp add: WT_GIGABYTE_def word_less_nat_alt)
  then have "unat bytes * 1000000000 < 2 ^ 64" by simp
  then have "unat (bytes * WT_BILLION) = unat bytes * 1000000000"
    by (simp add: WT_BILLION_def unat_word_ariths)
  then show ?thesis
    by (simp add: unat_div slot_ns_def)
qed

text \<open>
  Claim C3. With a capacity of 0 the reservation returns \<^verbatim>\<open>now_ns\<close> and leaves the
  connection, and so the clock, as it was. Otherwise, with \<open>len\<close> the slot length
  \<open>bytes * 10^9 / capacity\<close> and \<open>v\<close> the clock plus \<open>len\<close>: the clock becomes \<open>v\<close>, or
  \<open>now_ns - 10^9 + len\<close> exactly when \<open>v\<close> is more than one second behind \<^verbatim>\<open>now_ns\<close>,
  and the value returned is \<open>v\<close> in both cases. For the bytes the throttle allows
  (below 16 GiB) the 64-bit slot length is the exact quotient \<open>slot_ns\<close>.
\<close>

theorem capacity_reserve_spec:
  "(capacity = 0 \<longrightarrow> capacity_reserve c clk bytes capacity now_ns = Inr (c, now_ns)) \<and>
   (capacity \<noteq> 0 \<longrightarrow>
      (let len = bytes * 1000000000 div capacity;
           v = load c clk + len
       in capacity_reserve c clk bytes capacity now_ns =
            Inr (store clk (if unat v + 1000000000 < unat now_ns
                            then now_ns - 1000000000 + len else v) c, v) \<and>
          (bytes < 16 * WT_GIGABYTE \<longrightarrow> unat len = slot_ns (unat bytes) (unat capacity))))"
proof -
  have "capacity \<noteq> 0 \<Longrightarrow> bytes < 16 * WT_GIGABYTE \<Longrightarrow>
          unat (bytes * 1000000000 div capacity) = slot_ns (unat bytes) (unat capacity)"
    using WT_RESERVATION_NS_exact [of bytes capacity] by (simp add: WT_BILLION_def)
  moreover have "capacity \<noteq> 0 \<Longrightarrow>
      capacity_reserve c clk bytes capacity now_ns =
        Inr (store clk (if unat (load c clk + bytes * 1000000000 div capacity) + 1000000000
                             < unat now_ns
                        then now_ns - 1000000000 + bytes * 1000000000 div capacity
                        else load c clk + bytes * 1000000000 div capacity) c,
             load c clk + bytes * 1000000000 div capacity)"
    using behind_iff [of "load c clk + bytes * 1000000000 div capacity" now_ns]
    by (simp add: capacity_reserve_def WT_RESERVATION_NS_def wt_atomic_add64_def
          wt_atomic_store64_def WT_BILLION_def)
  moreover have "capacity = 0 \<Longrightarrow> capacity_reserve c clk bytes capacity now_ns = Inr (c, now_ns)"
    by (simp add: capacity_reserve_def)
  ultimately show ?thesis by (simp add: Let_def)
qed

theorem capacity_reserve_spec_witness:
  "capacity_reserve conn_init Clock_log 500000 0 7 = Inr (conn_init, 7) \<and>
   (1000000 :: u64) \<noteq> 0 \<and> (500000 :: u64) < 16 * WT_GIGABYTE \<and>
   capacity_reserve conn_init Clock_log 500000 1000000 0 =
     Inr (conn_init\<lparr>reservation_log := 500000000\<rparr>, 500000000) \<and>
   capacity_reserve conn_init Clock_log 500000 1000000 5000000000 =
     Inr (conn_init\<lparr>reservation_log := 4500000000\<rparr>, 500000000) \<and>
   slot_ns 500000 1000000 = 500000000"
  using capacity_reserve_spec
      [where capacity = 0 and c = conn_init and clk = Clock_log and bytes = 500000
         and now_ns = 7]
    capacity_reserve_spec
      [where capacity = 1000000 and c = conn_init and clk = Clock_log and bytes = 500000
         and now_ns = 0]
    capacity_reserve_spec
      [where capacity = 1000000 and c = conn_init and clk = Clock_log and bytes = 500000
         and now_ns = 5000000000]
  by (simp add: Let_def conn_init_def WT_GIGABYTE_def slot_ns_def)

section \<open>The throttle without a capacity\<close>



lemma WT_STAT_CONN_INCRV_fields [simp]:
  "capacity_total (WT_STAT_CONN_INCRV k a c) = capacity_total c"
  "capacity_log (WT_STAT_CONN_INCRV k a c) = capacity_log c"
  "sleeps (WT_STAT_CONN_INCRV k a c) = sleeps c"
  "reservation_ckpt (WT_STAT_CONN_INCRV k a c) = reservation_ckpt c"
  "reservation_evict (WT_STAT_CONN_INCRV k a c) = reservation_evict c"
  "reservation_log (WT_STAT_CONN_INCRV k a c) = reservation_log c"
  "reservation_read (WT_STAT_CONN_INCRV k a c) = reservation_read c"
  "reservation_total (WT_STAT_CONN_INCRV k a c) = reservation_total c"
  "capacity_written (WT_STAT_CONN_INCRV k a c) = capacity_written c"
  "stats (WT_STAT_CONN_INCRV k a c) = (stats c)(k := stats c k + a)"
  by (simp_all add: WT_STAT_CONN_INCRV_def)





section \<open>The wait at the end of the throttle\<close>


lemma throttle_pass_Return:
  assumes "throttle_pass diagnostic env now_ns bytes type capacity reservation
             total_capacity c steal = Inr (Return r)"
  shows "\<exists>c' res_value res_total_value.
           r = throttle_wait c' type now_ns res_value res_total_value"
  using assms
  by (auto simp: throttle_pass_def Let_def
           split: sum.splits prod.splits if_splits option.splits bool.splits)



section \<open>Stealing from another subsystem\<close>

lemma capacity_reserve_positive:
  assumes "capacity_reserve c p bytes capacity now_ns = Inr (cr, res_value)"
    and "now_ns < res_value"
  shows "capacity \<noteq> 0"
  using assms by (auto simp: capacity_reserve_def)



lemma conn_steal_r1:
  "capacity_reserve conn_steal Clock_log 100000 2000000 100000000000 =
     Inr (conn_steal\<lparr>reservation_log := 100200000000\<rparr>, 100200000000)"
  by (simp add: capacity_reserve_def WT_RESERVATION_NS_def wt_atomic_add64_def
        wt_atomic_store64_def WT_BILLION_def conn_steal_def)

lemma conn_steal_r2:
  "capacity_reserve (conn_steal\<lparr>reservation_log := 100200000000\<rparr>) Clock_total 100000
     10000000 100000000000 =
     Inr (conn_steal\<lparr>reservation_log := 100200000000, reservation_total := 99010000000\<rparr>,
          10000000)"
  by (simp add: capacity_reserve_def WT_RESERVATION_NS_def wt_atomic_add64_def
        wt_atomic_store64_def WT_BILLION_def conn_steal_def)

lemma conn_steal_scan:
  "steal_scan (conn_steal\<lparr>reservation_log := 100200000000, reservation_total := 99010000000\<rparr>)
     WT_THROTTLE_LOG 100000000000 = (Some Clock_ckpt, 1000000, 0)"
  by (simp add: steal_scan_def WT_BILLION_def conn_steal_def Let_def)



section \<open>The retry after a failed compare-and-swap\<close>

lemma throttle_pass_no_steal:
  assumes "steal \<noteq> None"
  shows "throttle_pass diagnostic env now_ns bytes type capacity reservation
           total_capacity c steal =
         (case capacity_reserve c reservation bytes capacity now_ns of
            Inl f \<Rightarrow> Inl f
          | Inr (c1, res_value) \<Rightarrow>
              (case capacity_reserve c1 Clock_total bytes total_capacity now_ns of
                 Inl f \<Rightarrow> Inl f
               | Inr (c2, res_total_value) \<Rightarrow>
                   Inr (Return (throttle_wait c2 type now_ns res_value res_total_value))))"
  using assms
  by (auto simp: throttle_pass_def split: sum.splits prod.splits)

lemma throttle_passes_two:
  "throttle_passes 2 diagnostic env now_ns bytes type capacity reservation total_capacity
     c steal =
   Some (throttle_again diagnostic env now_ns bytes type capacity reservation
           total_capacity c steal)"
proof (cases "throttle_pass diagnostic env now_ns bytes type capacity reservation
                total_capacity c steal")
  case (Inl f)
  then show ?thesis by (simp add: numeral_2_eq_2)
next
  case (Inr p)
  show ?thesis
  proof (cases p)
    case (Return c')
    with Inr show ?thesis by (simp add: numeral_2_eq_2)
  next
    case (Again c' steal')
    with Inr have "steal' \<noteq> None"
      using throttle_pass_Again by blast
    then have "\<nexists>c'' s''. throttle_pass diagnostic env now_ns bytes type capacity reservation
                 total_capacity c' steal' = Inr (Again c'' s'')"
      using throttle_pass_Again by blast
    with Inr Again show ?thesis
      by (simp add: numeral_2_eq_2 split: sum.splits pass.splits)
  qed
qed

lemma throttle_pass_cas_failed:
  assumes r1: "capacity_reserve c (throttle_reservation type) bytes capacity now_ns =
                 Inr (cr, res_value)"
    and r2: "capacity_reserve cr Clock_total bytes total_capacity now_ns =
               Inr (ct, res_total_value)"
    and trig: "now_ns < res_value" "res_total_value < now_ns" "total_capacity \<noteq> 0"
    and scan: "steal_scan ct type now_ns = (Some victim, steal_capacity, best_res)"
    and scap: "steal_capacity \<noteq> 0"
    and cas: "load (env ct) victim \<noteq> best_res"
  shows "throttle_pass diagnostic env now_ns bytes type capacity (throttle_reservation type)
           total_capacity c None =
         Inr (Again
                (store Clock_total
                   (load (env ct) Clock_total - bytes * 1000000000 div total_capacity)
                   (store (throttle_reservation type)
                      (load (env ct) (throttle_reservation type)
                         - bytes * 1000000000 div capacity)
                      (env ct)))
                (Some victim))"
proof -
  have cap: "capacity \<noteq> 0"
    using capacity_reserve_positive [OF r1 trig(1)] .
  have ne: "reservation_total (store (throttle_reservation type) v d) = reservation_total d"
    for v d
    by (cases type) simp_all
  show ?thesis
    using r1 r2 trig scan scap cas cap
    by (simp add: throttle_pass_def WT_RESERVATION_NS_def wt_atomic_casv64_def
          wt_atomic_sub64_def WT_BILLION_def ne)
qed

lemma conn_steal_second:
  "throttle_pass True env_ckpt 100000000000 100000 WT_THROTTLE_LOG 2000000 Clock_log 10000000
     (conn_steal\<lparr>reservation_ckpt := 77, reservation_log := 100150000000,
        reservation_total := 99000000000\<rparr>) (Some Clock_ckpt) =
   Inr (Return (conn_steal\<lparr>reservation_ckpt := 77, reservation_log := 100200000000,
        reservation_total := 99010000000,
        stats := (\<lambda>_. 0)(stat_capacity_log_throttles := 1, stat_capacity_log_time := 200000),
        sleeps := [(0, 200000)]\<rparr>))"
  by (simp add: throttle_pass_def capacity_reserve_def WT_RESERVATION_NS_def wt_atomic_add64_def
        wt_atomic_store64_def WT_BILLION_def conn_steal_def throttle_wait_def Let_def
        WT_THOUSAND_def WT_CAPACITY_SLEEP_CUTOFF_US_def wt_sleep_def WT_STAT_CONN_INCR_def
        WT_STAT_CONN_INCRV_def)

text \<open>
  Claim C5. Two passes always end the call: the loop of the throttle returns what at
  most two passes give, so it terminates. A pass asks for another one only when no steal
  had been tried before, and it then hands on a \<^verbatim>\<open>steal\<close> that is not \<^verbatim>\<open>NULL\<close>, so that
  the next pass takes the two reservations, goes to the wait and tries no steal. When
  the compare-and-swap on the chosen subsystem fails, the pass subtracts the slot of the
  bytes at the capacity of the caller from the clock of the caller and the slot of the
  bytes at the total capacity from \<^verbatim>\<open>reservation_total\<close> before it asks for the second
  pass.
\<close>

theorem throttle_retry_bounded:
  "throttle_passes 2 diagnostic env now_ns bytes type capacity reservation total_capacity
     c steal =
     Some (throttle_again diagnostic env now_ns bytes type capacity reservation
             total_capacity c steal) \<and>
   (\<forall>c' steal'.
      throttle_pass diagnostic env now_ns bytes type capacity reservation total_capacity
        c steal = Inr (Again c' steal') \<longrightarrow>
      steal = None \<and> steal' \<noteq> None \<and>
      throttle_pass diagnostic env now_ns bytes type capacity reservation total_capacity
        c' steal' =
        (case capacity_reserve c' reservation bytes capacity now_ns of
           Inl f \<Rightarrow> Inl f
         | Inr (cr', res_value') \<Rightarrow>
             (case capacity_reserve cr' Clock_total bytes total_capacity now_ns of
                Inl f \<Rightarrow> Inl f
              | Inr (ct', res_total_value') \<Rightarrow>
                  Inr (Return (throttle_wait ct' type now_ns res_value'
                                 res_total_value'))))) \<and>
   (reservation = throttle_reservation type \<and>
    capacity_reserve c reservation bytes capacity now_ns = Inr (cr, res_value) \<and>
    capacity_reserve cr Clock_total bytes total_capacity now_ns =
      Inr (ct, res_total_value) \<and>
    now_ns < res_value \<and> res_total_value < now_ns \<and> total_capacity \<noteq> 0 \<and>
    steal_scan ct type now_ns = (Some victim, steal_capacity, best_res) \<and>
    steal_capacity \<noteq> 0 \<and> load (env ct) victim \<noteq> best_res \<longrightarrow>
      throttle_pass diagnostic env now_ns bytes type capacity reservation total_capacity
        c None =
        Inr (Again
               (store Clock_total
                  (load (env ct) Clock_total - bytes * 1000000000 div total_capacity)
                  (store reservation
                     (load (env ct) reservation - bytes * 1000000000 div capacity)
                     (env ct)))
               (Some victim)))"
proof (intro conjI allI impI)
  show "throttle_passes 2 diagnostic env now_ns bytes type capacity reservation
          total_capacity c steal =
        Some (throttle_again diagnostic env now_ns bytes type capacity reservation
                total_capacity c steal)"
    by (rule throttle_passes_two)
next
  fix c' steal'
  assume again: "throttle_pass diagnostic env now_ns bytes type capacity reservation
                   total_capacity c steal = Inr (Again c' steal')"
  from throttle_pass_Again [OF again] show "steal = None" and s': "steal' \<noteq> None"
    by simp_all
  show "throttle_pass diagnostic env now_ns bytes type capacity reservation total_capacity
          c' steal' =
        (case capacity_reserve c' reservation bytes capacity now_ns of
           Inl f \<Rightarrow> Inl f
         | Inr (cr', res_value') \<Rightarrow>
             (case capacity_reserve cr' Clock_total bytes total_capacity now_ns of
                Inl f \<Rightarrow> Inl f
              | Inr (ct', res_total_value') \<Rightarrow>
                  Inr (Return (throttle_wait ct' type now_ns res_value'
                                 res_total_value'))))"
    by (rule throttle_pass_no_steal [OF s'])
next
  assume h: "reservation = throttle_reservation type \<and>
    capacity_reserve c reservation bytes capacity now_ns = Inr (cr, res_value) \<and>
    capacity_reserve cr Clock_total bytes total_capacity now_ns =
      Inr (ct, res_total_value) \<and>
    now_ns < res_value \<and> res_total_value < now_ns \<and> total_capacity \<noteq> 0 \<and>
    steal_scan ct type now_ns = (Some victim, steal_capacity, best_res) \<and>
    steal_capacity \<noteq> 0 \<and> load (env ct) victim \<noteq> best_res"
  then have res: "reservation = throttle_reservation type"
    and r1: "capacity_reserve c (throttle_reservation type) bytes capacity now_ns =
               Inr (cr, res_value)"
    and r2: "capacity_reserve cr Clock_total bytes total_capacity now_ns =
               Inr (ct, res_total_value)"
    and trig: "now_ns < res_value" "res_total_value < now_ns" "total_capacity \<noteq> 0"
    and scan: "steal_scan ct type now_ns = (Some victim, steal_capacity, best_res)"
    and scap: "steal_capacity \<noteq> 0"
    and cas: "load (env ct) victim \<noteq> best_res"
    by auto
  show "throttle_pass diagnostic env now_ns bytes type capacity reservation
               total_capacity c None =
        Inr (Again
               (store Clock_total
                  (load (env ct) Clock_total - bytes * 1000000000 div total_capacity)
                  (store reservation
                     (load (env ct) reservation - bytes * 1000000000 div capacity)
                     (env ct)))
               (Some victim))"
    unfolding res
    by (rule throttle_pass_cas_failed [where env = env and ct = ct,
          OF r1 r2 trig scan scap cas])
qed

theorem throttle_retry_bounded_witness:
  "capacity_reserve conn_steal Clock_log 100000 2000000 100000000000 =
     Inr (conn_steal\<lparr>reservation_log := 100200000000\<rparr>, 100200000000) \<and>
   capacity_reserve (conn_steal\<lparr>reservation_log := 100200000000\<rparr>) Clock_total 100000
     10000000 100000000000 =
     Inr (conn_steal\<lparr>reservation_log := 100200000000, reservation_total := 99010000000\<rparr>,
          10000000) \<and>
   steal_scan (conn_steal\<lparr>reservation_log := 100200000000, reservation_total := 99010000000\<rparr>)
     WT_THROTTLE_LOG 100000000000 = (Some Clock_ckpt, 1000000, 0) \<and>
   load (env_ckpt (conn_steal\<lparr>reservation_log := 100200000000,
           reservation_total := 99010000000\<rparr>)) Clock_ckpt \<noteq> 0 \<and>
   throttle_pass True env_ckpt 100000000000 100000 WT_THROTTLE_LOG 2000000 Clock_log 10000000
     conn_steal None =
     Inr (Again (conn_steal\<lparr>reservation_ckpt := 77, reservation_log := 100150000000,
                   reservation_total := 99000000000\<rparr>) (Some Clock_ckpt)) \<and>
   throttle_passes 2 True env_ckpt 100000000000 100000 WT_THROTTLE_LOG 2000000 Clock_log
     10000000 conn_steal None =
     Some (throttle_again True env_ckpt 100000000000 100000 WT_THROTTLE_LOG 2000000 Clock_log
             10000000 conn_steal None) \<and>
   throttle_again True env_ckpt 100000000000 100000 WT_THROTTLE_LOG 2000000 Clock_log
     10000000 conn_steal None =
     Inr (conn_steal\<lparr>reservation_ckpt := 77, reservation_log := 100200000000,
        reservation_total := 99010000000,
        stats := (\<lambda>_. 0)(stat_capacity_log_throttles := 1, stat_capacity_log_time := 200000),
        sleeps := [(0, 200000)]\<rparr>)"
proof -
  have r1: "capacity_reserve conn_steal Clock_log 100000 2000000 100000000000 =
     Inr (conn_steal\<lparr>reservation_log := 100200000000\<rparr>, 100200000000)"
    by (rule conn_steal_r1)
  have cas: "load (env_ckpt (conn_steal\<lparr>reservation_log := 100200000000,
           reservation_total := 99010000000\<rparr>)) Clock_ckpt = 77"
    by (simp add: env_ckpt_def conn_steal_def)
  have envc: "env_ckpt (conn_steal\<lparr>reservation_log := 100200000000,
           reservation_total := 99010000000\<rparr>) =
        conn_steal\<lparr>reservation_ckpt := 77, reservation_log := 100200000000,
           reservation_total := 99010000000\<rparr>"
    by (simp add: env_ckpt_def conn_steal_def)
  note inst = throttle_retry_bounded
        [where diagnostic = True and env = env_ckpt and c = conn_steal
           and type = WT_THROTTLE_LOG and bytes = 100000 and capacity = 2000000
           and now_ns = 100000000000 and reservation = Clock_log and steal = None
           and cr = "conn_steal\<lparr>reservation_log := 100200000000\<rparr>"
           and res_value = 100200000000
           and ct = "conn_steal\<lparr>reservation_log := 100200000000,
                       reservation_total := 99010000000\<rparr>"
           and res_total_value = 10000000 and total_capacity = 10000000
           and victim = Clock_ckpt and steal_capacity = 1000000 and best_res = 0]
  have pass1: "throttle_pass True env_ckpt 100000000000 100000 WT_THROTTLE_LOG 2000000
     Clock_log 10000000 conn_steal None =
     Inr (Again (conn_steal\<lparr>reservation_ckpt := 77, reservation_log := 100150000000,
                   reservation_total := 99000000000\<rparr>) (Some Clock_ckpt))"
    using r1 conn_steal_r2 conn_steal_scan cas inst
    by (simp add: envc)
  have again: "throttle_again True env_ckpt 100000000000 100000 WT_THROTTLE_LOG 2000000
     Clock_log 10000000 conn_steal None =
     Inr (conn_steal\<lparr>reservation_ckpt := 77, reservation_log := 100200000000,
        reservation_total := 99010000000,
        stats := (\<lambda>_. 0)(stat_capacity_log_throttles := 1, stat_capacity_log_time := 200000),
        sleeps := [(0, 200000)]\<rparr>)"
    using pass1 conn_steal_second inst
    by (simp add: numeral_2_eq_2)
  show ?thesis
    using r1 conn_steal_r2 conn_steal_scan cas pass1 again inst
    by simp
qed

section \<open>The assertions on the capacities\<close>

text \<open>
  While the capacities are all set, no assertion of the throttle fails and no slot length
  divides by zero, whatever the other threads do to the clocks; and a configure keeps
  the capacities all set when \<^verbatim>\<open>WT_THROTTLE_MIN\<close> is at least 10 and 60 times the total
  is below \<open>2 ^ 64\<close>.
\<close>

lemma throttle_pass_Again_divisors:
  assumes "throttle_pass diagnostic env now_ns bytes type capacity reservation
             total_capacity c steal = Inr (Again c' steal')"
  shows "capacity \<noteq> 0 \<and> total_capacity \<noteq> 0"
  using assms
  by (auto simp: throttle_pass_def Let_def WT_RESERVATION_NS_def
           split: sum.splits prod.splits if_splits option.splits bool.splits)

lemma store_capacities [simp]:
  "capacity_ckpt (store p v c) = capacity_ckpt c"
  "capacity_evict (store p v c) = capacity_evict c"
  "capacity_log (store p v c) = capacity_log c"
  "capacity_read (store p v c) = capacity_read c"
  by (cases p; simp)+

lemma capacity_reserve_Inr:
  "\<exists>c' v. capacity_reserve c p bytes capacity now_ns = Inr (c', v) \<and>
          capacity_ckpt c' = capacity_ckpt c \<and> capacity_evict c' = capacity_evict c \<and>
          capacity_log c' = capacity_log c \<and> capacity_read c' = capacity_read c"
  by (simp add: capacity_reserve_def WT_RESERVATION_NS_def wt_atomic_add64_def
        wt_atomic_store64_def)

lemma steal_scan_capacity:
  assumes "steal_scan c type now_ns = (Some victim, steal_capacity, best_res)"
  shows "steal_capacity = capacity_ckpt c \<or> steal_capacity = capacity_evict c \<or>
         steal_capacity = capacity_log c \<or> steal_capacity = capacity_read c"
  using assms
  by (auto simp: steal_scan_def Let_def split: if_splits)

lemma throttle_pass_no_fault:
  assumes inv: "total_capacity \<noteq> 0 \<longrightarrow>
                  capacity_ckpt c \<noteq> 0 \<and> capacity_evict c \<noteq> 0 \<and> capacity_log c \<noteq> 0 \<and>
                  capacity_read c \<noteq> 0"
  shows "throttle_pass diagnostic env now_ns bytes type capacity reservation
           total_capacity c steal \<noteq> Inl f"
proof -
  obtain cr res_value where
    r1: "capacity_reserve c reservation bytes capacity now_ns = Inr (cr, res_value)"
    and k1: "capacity_ckpt cr = capacity_ckpt c" "capacity_evict cr = capacity_evict c"
      "capacity_log cr = capacity_log c" "capacity_read cr = capacity_read c"
    using capacity_reserve_Inr [of c reservation bytes capacity now_ns] by blast
  obtain ct res_total_value where
    r2: "capacity_reserve cr Clock_total bytes total_capacity now_ns =
           Inr (ct, res_total_value)"
    and k2: "capacity_ckpt ct = capacity_ckpt cr" "capacity_evict ct = capacity_evict cr"
      "capacity_log ct = capacity_log cr" "capacity_read ct = capacity_read cr"
    using capacity_reserve_Inr [of cr Clock_total bytes total_capacity now_ns] by blast
  show ?thesis
  proof (cases "now_ns < res_value \<and> res_total_value < now_ns \<and> steal = None \<and>
                total_capacity \<noteq> 0")
    case False
    with r1 r2 show ?thesis
      by (auto simp: throttle_pass_def)
  next
    case True
    then have cap: "capacity \<noteq> 0"
      using capacity_reserve_positive [OF r1] by simp
    obtain st steal_capacity best_res where
      scan: "steal_scan ct type now_ns = (st, steal_capacity, best_res)"
      by (cases "steal_scan ct type now_ns") auto
    show ?thesis
    proof (cases st)
      case None
      with r1 r2 True scan show ?thesis
        by (simp add: throttle_pass_def)
    next
      case (Some victim)
      with scan inv True k1 k2 have "steal_capacity \<noteq> 0"
        using steal_scan_capacity [of ct type now_ns victim steal_capacity best_res]
        by auto
      with r1 r2 True scan Some cap show ?thesis
        by (simp add: throttle_pass_def WT_RESERVATION_NS_def wt_atomic_casv64_def
              wt_atomic_sub64_def Let_def)
    qed
  qed
qed

lemma throttle_again_no_fault:
  assumes inv: "total_capacity \<noteq> 0 \<longrightarrow>
                  capacity_ckpt c \<noteq> 0 \<and> capacity_evict c \<noteq> 0 \<and> capacity_log c \<noteq> 0 \<and>
                  capacity_read c \<noteq> 0"
  shows "throttle_again diagnostic env now_ns bytes type capacity reservation
           total_capacity c steal \<noteq> Inl f"
proof (cases "throttle_pass diagnostic env now_ns bytes type capacity reservation
                total_capacity c steal")
  case (Inl g)
  with throttle_pass_no_fault [OF inv] show ?thesis by blast
next
  case (Inr p)
  show ?thesis
  proof (cases p)
    case (Return c')
    with Inr show ?thesis by simp
  next
    case (Again c' steal')
    with Inr have s': "steal' \<noteq> None"
      using throttle_pass_Again by blast
    obtain cr v where r1: "capacity_reserve c' reservation bytes capacity now_ns = Inr (cr, v)"
      using capacity_reserve_Inr [of c' reservation bytes capacity now_ns] by blast
    obtain ct w where r2: "capacity_reserve cr Clock_total bytes total_capacity now_ns =
                             Inr (ct, w)"
      using capacity_reserve_Inr [of cr Clock_total bytes total_capacity now_ns] by blast
    have "throttle_pass diagnostic env now_ns bytes type capacity reservation
            total_capacity c' steal' = Inr (Return (throttle_wait ct type now_ns v w))"
      by (simp add: throttle_pass_no_steal [OF s'] r1 r2)
    with Inr Again show ?thesis by simp
  qed
qed

lemma capacity_throttle_no_fault:
  assumes inv: "capacities_set c" and bytes: "bytes < 16 * WT_GIGABYTE"
  shows "\<exists>c'. capacity_throttle diagnostic env now c bytes type = Inr c'"
proof (cases "(throttle_capacity c type = 0 \<and> capacity_total c = 0) \<or> WT_CONN_RECOVERING c")
  case True
  then show ?thesis
    by (auto simp: capacity_throttle_def Let_def WT_STAT_CONN_INCR_def WT_STAT_CONN_INCRV_def)
next
  case False
  then have cap: "throttle_capacity c type \<noteq> 0"
    using inv by (cases type) (auto simp: capacities_set_def)
  define d where "d = (if type \<noteq> WT_THROTTLE_READ then
                       capacity_signal
                         (WT_STAT_CONN_INCRV stat_capacity_bytes_written (unat bytes)
                            ((WT_STAT_CONN_INCR (throttle_calls_stat type) c)
                               \<lparr>capacity_written :=
                                  capacity_written (WT_STAT_CONN_INCR (throttle_calls_stat type) c)
                                    + bytes\<rparr>))
                     else WT_STAT_CONN_INCRV stat_capacity_bytes_read (unat bytes)
                            (WT_STAT_CONN_INCR (throttle_calls_stat type) c))"
  have caps: "capacity_ckpt d = capacity_ckpt c" "capacity_evict d = capacity_evict c"
    "capacity_log d = capacity_log c" "capacity_read d = capacity_read c"
    by (simp_all add: d_def capacity_signal_eq WT_STAT_CONN_INCR_def WT_STAT_CONN_INCRV_def)
  have inv_d: "capacity_total c \<noteq> 0 \<longrightarrow>
                 capacity_ckpt d \<noteq> 0 \<and> capacity_evict d \<noteq> 0 \<and> capacity_log d \<noteq> 0 \<and>
                 capacity_read d \<noteq> 0"
    using inv caps by (simp add: capacities_set_def)
  have run: "capacity_throttle diagnostic env now c bytes type =
          throttle_again diagnostic env (tv_sec now * WT_BILLION + tv_nsec now) bytes type
            (throttle_capacity c type) (throttle_reservation type) (capacity_total c) d None"
    using False cap bytes
    by (simp add: capacity_throttle_def Let_def d_def WT_STAT_CONN_INCR_def
          WT_STAT_CONN_INCRV_def)
  show ?thesis
    using throttle_again_no_fault [OF inv_d] unfolding run
    by (metis sum.exhaust)
qed

lemma sint_nonneg_uint:
  assumes "0 \<le> sint (v :: 64 word)"
  shows "sint v = uint v"
proof (cases "uint v < 2 ^ 63")
  case True
  moreover have "- (2 ^ 63) \<le> (0 :: int)"
    by simp
  then have "- (2 ^ 63) \<le> uint v"
    by (rule order_trans [OF _ unsigned_greater_eq])
  ultimately have "signed_take_bit 63 (uint v) = uint v"
    by (intro signed_take_bit_int_eq_self) simp_all
  then show ?thesis
    by (simp add: sint_uint)
next
  case False
  then have "signed_take_bit 63 (uint v) \<le> uint v - 18446744073709551616"
    using signed_take_bit_int_less_eq [of 63 "uint v"] by simp
  moreover have "uint v < 18446744073709551616"
    using unsigned_less [of v, where ?'a = int] by simp
  moreover have "sint v = signed_take_bit 63 (uint v)"
    by (simp add: sint_uint)
  ultimately have "sint v < 0"
    by linarith
  with assms show ?thesis by simp
qed

lemma capacity_config_capacities_set:
  assumes ok: "capacity_config throttle_min c cfg = (Inr (), c')"
    and key: "cfg ''io_capacity.total'' = Some v"
    and tmin: "10 \<le> throttle_min"
    and bound: "sint v \<le> 307445734561825860"
    and inv: "capacities_set c"
  shows "capacities_set c'"
proof (cases "v = 0")
  case True
  with ok key inv show ?thesis
    by (auto simp: capacity_config_def wt_config_gets_def WT_CAPACITY_CHK_def Let_def
          WT_STAT_CONN_SET_def capacities_set_def)
next
  case False
  with ok key have "throttle_min \<le> sint v"
    by (auto simp: capacity_config_def wt_config_gets_def WT_CAPACITY_CHK_def Let_def
          split: if_splits)
  with tmin have pos: "10 \<le> sint v" by simp
  then have "sint v = uint v"
    by (intro sint_nonneg_uint) simp
  moreover have "int (unat v) = uint v"
    by simp
  ultimately have lo: "10 \<le> unat v" and hi: "unat v \<le> 307445734561825860"
    using pos bound by linarith+
  have nz: "WT_CAPACITY v pct \<noteq> 0" if "10 \<le> unat pct" "unat pct \<le> 60" for pct
  proof -
    have "unat v * unat pct \<le> 307445734561825860 * 60"
      using hi that by (intro mult_le_mono) simp_all
    then have "unat v * unat pct < 2 ^ 64" by simp
    then have "unat (v * pct) = unat v * unat pct"
      by (simp add: unat_word_ariths)
    moreover have "10 * 10 \<le> unat v * unat pct"
      using lo that by (intro mult_le_mono) simp_all
    ultimately have "0 < unat (v * pct div 100)"
      by (simp add: unat_div)
    then show ?thesis
      by (auto simp: WT_CAPACITY_def)
  qed
  have "capacity_ckpt c' = WT_CAPACITY v WT_CAP_CKPT" "capacity_evict c' = WT_CAPACITY v WT_CAP_EVICT"
    "capacity_log c' = WT_CAPACITY v WT_CAP_LOG" "capacity_read c' = WT_CAPACITY v WT_CAP_READ"
    using ok key False
    by (auto simp: capacity_config_def wt_config_gets_def Let_def WT_STAT_CONN_SET_def
          split: if_splits)
  then show ?thesis
    using nz [of WT_CAP_CKPT] nz [of WT_CAP_EVICT] nz [of WT_CAP_LOG] nz [of WT_CAP_READ]
    by (simp add: capacities_set_def WT_CAP_CKPT_def WT_CAP_EVICT_def WT_CAP_LOG_def
          WT_CAP_READ_def)
qed

lemma capacity_throttle_assert_capacity:
  assumes "throttle_capacity c type = 0" and "capacity_total c \<noteq> 0"
    and "\<not> WT_CONN_RECOVERING c" and "bytes < 16 * WT_GIGABYTE"
  shows "capacity_throttle True env now c bytes type = Inl Assert_capacity"
  using assms
  by (simp add: capacity_throttle_def Let_def WT_STAT_CONN_INCR_def WT_STAT_CONN_INCRV_def)

lemma conn_2p62_eq:
  "capacity_config 1048576 conn_init (io_capacity_total 4611686018427387904) =
     (Inr (), conn_init\<lparr>capacity_total := 4611686018427387904,
        capacity_ckpt := 92233720368547758,
        capacity_evict := 0, capacity_log := 0, capacity_read := 0,
        capacity_threshold := 9223372036854770,
        stats := (\<lambda>_. 0)(stat_capacity_threshold := 9223372036854770)\<rparr>)"
  by (simp add: capacity_config_def wt_config_gets_def io_capacity_total_def
        WT_CAPACITY_CHK_def WT_CAPACITY_def WT_CAP_CKPT_def WT_CAP_EVICT_def WT_CAP_LOG_def
        WT_CAP_READ_def WT_CAPACITY_PCT_def WT_STAT_CONN_SET_def conn_init_def Let_def)

lemma conn_2p62_fields:
  "conn_2p62 = conn_init\<lparr>capacity_total := 4611686018427387904,
        capacity_ckpt := 92233720368547758,
        capacity_evict := 0, capacity_log := 0, capacity_read := 0,
        capacity_threshold := 9223372036854770,
        stats := (\<lambda>_. 0)(stat_capacity_threshold := 9223372036854770)\<rparr>"
  by (simp add: conn_2p62_def conn_2p62_eq)

text \<open>
  Claim C9 fails on the code. The configure accepts a total of \<open>2 ^ 62\<close>; the products
  of this total with 20 and with 60 are multiples of \<open>2 ^ 64\<close> and wrap to 0, so the
  log, eviction and read capacities become 0 while \<^verbatim>\<open>capacity_total\<close> is not 0. A call
  of the throttle for the log then passes the early exit with a capacity of 0, and the
  assertion \<^verbatim>\<open>capacity != 0\<close> fails.
\<close>

theorem capacity_assertion_fails:
  "capacity_config 1048576 conn_init (io_capacity_total 4611686018427387904) =
     (Inr (), conn_2p62) \<and>
   capacity_total conn_2p62 = 4611686018427387904 \<and> capacity_log conn_2p62 = 0 \<and>
   \<not> WT_CONN_RECOVERING conn_2p62 \<and>
   capacity_throttle True id time_1700 conn_2p62 4096 WT_THROTTLE_LOG = Inl Assert_capacity"
proof -
  have "capacity_throttle True id time_1700 conn_2p62 4096 WT_THROTTLE_LOG =
     Inl Assert_capacity"
    by (rule capacity_throttle_assert_capacity)
      (simp_all add: conn_2p62_fields conn_init_def WT_GIGABYTE_def)
  moreover have "capacity_config 1048576 conn_init (io_capacity_total 4611686018427387904) =
     (Inr (), conn_2p62)"
    by (simp add: conn_2p62_eq conn_2p62_fields)
  ultimately show ?thesis
    by (simp add: conn_2p62_fields conn_init_def)
qed

lemma conn_wrap_eq:
  "capacity_config 1048576 conn_init (io_capacity_total 1844674407370955168) =
     (Inr (), conn_init\<lparr>capacity_total := 1844674407370955168, capacity_ckpt := 0,
        capacity_evict := 3, capacity_log := 1, capacity_read := 3,
        capacity_threshold := 0,
        stats := (\<lambda>_. 0)(stat_capacity_threshold := 0)\<rparr>)"
  by (simp add: capacity_config_def wt_config_gets_def io_capacity_total_def
        WT_CAPACITY_CHK_def WT_CAPACITY_def WT_CAP_CKPT_def WT_CAP_EVICT_def WT_CAP_LOG_def
        WT_CAP_READ_def WT_CAPACITY_PCT_def WT_STAT_CONN_SET_def conn_init_def Let_def)

lemma conn_wrap_fields:
  "conn_wrap = conn_init\<lparr>capacity_total := 1844674407370955168, capacity_ckpt := 0,
        capacity_evict := 3, capacity_log := 1, capacity_read := 3,
        capacity_threshold := 0,
        stats := (\<lambda>_. 0)(stat_capacity_threshold := 0)\<rparr>"
  by (simp add: conn_wrap_def conn_wrap_eq)

lemma conn_wrap_first:
  "capacity_throttle diagnostic id time_1700 conn_wrap 6 WT_THROTTLE_READ =
     Inr conn_wrap_read"
  by (simp add: capacity_throttle_def Let_def WT_STAT_CONN_INCR_def WT_STAT_CONN_INCRV_def
        WT_GIGABYTE_def WT_BILLION_def
        conn_wrap_fields conn_init_def time_1700_def conn_wrap_read_def fun_eq_iff
        throttle_pass_def capacity_reserve_def WT_RESERVATION_NS_def wt_atomic_add64_def
        wt_atomic_store64_def throttle_wait_def)

lemma conn_wrap_second:
  "capacity_throttle diagnostic id time_1700 conn_wrap_read 6 WT_THROTTLE_READ =
     Inl (if diagnostic then Assert_steal_capacity else Division_by_zero)"
  by (simp add: capacity_throttle_def Let_def WT_STAT_CONN_INCR_def WT_STAT_CONN_INCRV_def
        WT_GIGABYTE_def WT_BILLION_def
        conn_wrap_fields conn_init_def time_1700_def conn_wrap_read_def
        throttle_pass_def capacity_reserve_def WT_RESERVATION_NS_def wt_atomic_add64_def
        wt_atomic_store64_def steal_scan_def)

text \<open>
  Claim C10 fails on the code. The configure accepts a total of 1844674407370955168;
  ten times this total wraps to 64 and sixty times to 384, so the checkpoint capacity
  is 0 and the read capacity is 3. Two calls of the throttle for a read of 6 bytes at
  the same time: the first leaves the read clock one second after that time and the
  total clock one second before it; the second reserves up to three seconds after the
  time while its total reservation is before it, so the steal is tried and chooses the
  checkpoint subsystem, whose clock is still 0 and whose capacity is 0. In a diagnostic
  build the assertion \<^verbatim>\<open>steal_capacity != 0\<close> fails, and otherwise \<^verbatim>\<open>WT_RESERVATION_NS\<close>
  divides by zero.
\<close>

theorem steal_capacity_assertion_fails:
  "capacity_config 1048576 conn_init (io_capacity_total 1844674407370955168) =
     (Inr (), conn_wrap) \<and>
   capacity_total conn_wrap = 1844674407370955168 \<and> capacity_read conn_wrap = 3 \<and>
   capacity_ckpt conn_wrap = 0 \<and>
   capacity_throttle True id time_1700 conn_wrap 6 WT_THROTTLE_READ = Inr conn_wrap_read \<and>
   capacity_throttle True id time_1700 conn_wrap_read 6 WT_THROTTLE_READ =
     Inl Assert_steal_capacity \<and>
   capacity_throttle False id time_1700 conn_wrap 6 WT_THROTTLE_READ = Inr conn_wrap_read \<and>
   capacity_throttle False id time_1700 conn_wrap_read 6 WT_THROTTLE_READ =
     Inl Division_by_zero"
proof -
  have cfg: "capacity_config 1048576 conn_init (io_capacity_total 1844674407370955168) =
     (Inr (), conn_wrap)"
    by (simp add: conn_wrap_eq conn_wrap_fields)
  show ?thesis
    using cfg conn_wrap_second [of True] conn_wrap_second [of False]
    by (simp add: conn_wrap_first) (simp add: conn_wrap_fields conn_init_def)
qed

end
